theory Spec2Isabelle
  imports Main "HOL-Library.AList"
begin

section \<open>Values, types and exceptions\<close>

text \<open>
  The converter of \<^verbatim>\<open>converters.py\<close> reads attributes of an origin instance,
  compares the class of each value with the type hint of the target attribute and, when
  they differ, sends the value through a parser looked up by the pair of types.

  Runtime classes are \<open>cls\<close>; \<open>TClass n\<close> is any class other than the four builtins
  named here (\<^verbatim>\<open>bytes\<close> is \<open>TClass ''bytes''\<close>). A type hint is a class or
  \<^verbatim>\<open>Optional\<close> of a class. Other hints (\<^verbatim>\<open>List[int]\<close>, wider unions) are
  outside this universe.
\<close>

datatype cls = TInt | TStr | TBool | NoneType | TClass string

datatype hint = Plain cls | Opt cls

text \<open>
  \<^verbatim>\<open>typing.Optional[t]\<close> is \<^verbatim>\<open>Union[t, None]\<close>: the union of
  \<^verbatim>\<open>NoneType\<close> with itself collapses to \<^verbatim>\<open>NoneType\<close>, and wrapping an
  optional hint again gives the same hint.
\<close>

fun Optional :: "hint \<Rightarrow> hint" where
  "Optional (Plain NoneType) = Plain NoneType"
| "Optional (Plain c) = Opt c"
| "Optional (Opt c) = Opt c"

text \<open>
  Values: the builtins the default parsers deal with, \<^verbatim>\<open>None\<close>, and \<open>VObj n\<close>, an
  instance of the class named \<open>n\<close> that defines no conversion method of its own.
\<close>

datatype pyval = VInt int | VStr string | VBool bool | VNone | VObj string

fun py_type :: "pyval \<Rightarrow> cls" where
  "py_type (VInt i) = TInt"
| "py_type (VStr s) = TStr"
| "py_type (VBool b) = TBool"
| "py_type VNone = NoneType"
| "py_type (VObj n) = TClass n"

text \<open>
  The two configuration errors of \<^verbatim>\<open>_setup_attrs\<close> are told apart by their
  message; \<open>DuplicateRename\<close> carries the list the message prints.
\<close>

datatype config_problem = NoTypeHints | DuplicateRename "string list"

datatype exn =
    KeyError string
  | ValueError
  | TypeError
  | AttributeError string
  | NotImplementedError
  | ParsingError string string
  | ConfigError config_problem

type_synonym 'a result = "exn + 'a"

type_synonym ('k, 'v) dict = "('k \<times> 'v) list"

text \<open>
  A \<^verbatim>\<open>dict\<close> keeps its keys in insertion order; assigning to a key that is
  present replaces the value in place. \<open>py_dict\<close> is \<^verbatim>\<open>dict(pairs)\<close> and
  \<open>dict_update\<close> is \<^verbatim>\<open>d.update(other)\<close>.
\<close>

definition dict_update :: "('k, 'v) dict \<Rightarrow> ('k \<times> 'v) list \<Rightarrow> ('k, 'v) dict" where
  "dict_update d ps = foldl (\<lambda>acc (k, v). AList.update k v acc) d ps"

definition py_dict :: "('k \<times> 'v) list \<Rightarrow> ('k, 'v) dict" where
  "py_dict ps = dict_update [] ps"

definition keys :: "('k, 'v) dict \<Rightarrow> 'k list" where
  "keys d = map fst d"

section \<open>Parsers\<close>

subsection \<open>The builtins \<^verbatim>\<open>int\<close> and \<^verbatim>\<open>str\<close>\<close>

text \<open>
  \<^verbatim>\<open>int(s)\<close> on a string, for code points below 256: surrounding whitespace is
  dropped, one sign is allowed, then decimal digits in which single underscores may
  separate digits. Anything else is a \<^verbatim>\<open>ValueError\<close>. The interpreter's limit on
  the number of digits is not modelled.
\<close>

definition is_space :: "char \<Rightarrow> bool" where
  "is_space c = (of_char c \<in> {9, 10, 11, 12, 13, 28, 29, 30, 31, 32, 133, 160 :: nat})"

definition is_digit :: "char \<Rightarrow> bool" where
  "is_digit c = (48 \<le> (of_char c :: nat) \<and> (of_char c :: nat) \<le> 57)"

definition digit_val :: "char \<Rightarrow> nat" where
  "digit_val c = of_char c - 48"

fun digits_value :: "nat \<Rightarrow> bool \<Rightarrow> string \<Rightarrow> nat option" where
  "digits_value acc prev [] = (if prev then Some acc else None)"
| "digits_value acc prev (c # cs) =
     (if is_digit c then digits_value (10 * acc + digit_val c) True cs
      else if c = CHR ''_'' \<and> prev then digits_value acc False cs
      else None)"

definition strip :: "string \<Rightarrow> string" where
  "strip s = rev (dropWhile is_space (rev (dropWhile is_space s)))"

definition int_of_str :: "string \<Rightarrow> int result" where
  "int_of_str s =
     (case strip s of
        [] \<Rightarrow> Inl ValueError
      | c # cs \<Rightarrow>
          if c = CHR ''-'' then
            (case digits_value 0 False cs of None \<Rightarrow> Inl ValueError | Some n \<Rightarrow> Inr (- int n))
          else if c = CHR ''+'' then
            (case digits_value 0 False cs of None \<Rightarrow> Inl ValueError | Some n \<Rightarrow> Inr (int n))
          else
            (case digits_value 0 False (c # cs) of None \<Rightarrow> Inl ValueError | Some n \<Rightarrow> Inr (int n)))"

fun py_int :: "pyval \<Rightarrow> pyval result" where
  "py_int (VStr s) = (case int_of_str s of Inl x \<Rightarrow> Inl x | Inr i \<Rightarrow> Inr (VInt i))"
| "py_int (VInt i) = Inr (VInt i)"
| "py_int (VBool b) = Inr (VInt (if b then 1 else 0))"
| "py_int VNone = Inl TypeError"
| "py_int (VObj n) = Inl TypeError"

definition digit_char :: "nat \<Rightarrow> char" where
  "digit_char n = char_of (48 + n)"

fun str_of_nat :: "nat \<Rightarrow> string" where
  "str_of_nat n = (if n < 10 then [digit_char n] else str_of_nat (n div 10) @ [digit_char (n mod 10)])"

definition str_of_int :: "int \<Rightarrow> string" where
  "str_of_int i = (if i < 0 then CHR ''-'' # str_of_nat (nat (- i)) else str_of_nat (nat i))"

text \<open>
  \<^verbatim>\<open>str(v)\<close>. For an object without \<^verbatim>\<open>__str__\<close> the text holds the address of
  the object; the model leaves the address out.
\<close>

fun py_str :: "pyval \<Rightarrow> pyval result" where
  "py_str (VInt i) = Inr (VStr (str_of_int i))"
| "py_str (VStr s) = Inr (VStr s)"
| "py_str (VBool b) = Inr (VStr (if b then ''True'' else ''False''))"
| "py_str VNone = Inr (VStr ''None'')"
| "py_str (VObj n) = Inr (VStr (''<'' @ n @ '' object>''))"

subsection \<open>\<^verbatim>\<open>BaseParser\<close> and its subclasses\<close>

text \<open>
  A parser is its two annotated types and its \<^verbatim>\<open>parse\<close> method.
\<close>

record parser =
  origin_type :: hint
  return_type :: hint
  parse :: "pyval \<Rightarrow> pyval result"

definition get_parse_types :: "parser \<Rightarrow> (hint \<times> hint) list" where
  "get_parse_types p =
     [(origin_type p, Optional (return_type p)),
      (Optional (origin_type p), Optional (return_type p)),
      (origin_type p, return_type p)]"

text \<open>\<^verbatim>\<open>BaseParser.__call__\<close>: \<^verbatim>\<open>None\<close> is returned as it is, without parsing.\<close>

definition call :: "parser \<Rightarrow> pyval \<Rightarrow> pyval result" where
  "call p v = (if v = VNone then Inr VNone else parse p v)"

definition IntStrParser :: parser where
  "IntStrParser = \<lparr>origin_type = Plain TInt, return_type = Plain TStr, parse = py_str\<rparr>"

definition StrIntParser :: parser where
  "StrIntParser = \<lparr>origin_type = Plain TStr, return_type = Plain TInt, parse = py_int\<rparr>"

section \<open>The converter\<close>

text \<open>
  An origin instance is the map from attribute names to values that
  \<^verbatim>\<open>getattr\<close> reads. A class, as far as \<^verbatim>\<open>get_type_hints\<close> sees it, is the
  list of its annotations.
\<close>

type_synonym origin_instance = "string \<rightharpoonup> pyval"

type_synonym shape = "(string \<times> hint) list"

definition getattr :: "origin_instance \<Rightarrow> string \<Rightarrow> pyval result" where
  "getattr inst name = (case inst name of None \<Rightarrow> Inl (AttributeError name) | Some v \<Rightarrow> Inr v)"

definition get_type_hints :: "shape \<Rightarrow> (string, hint) dict" where
  "get_type_hints c = py_dict c"

text \<open>
  The class attributes a subclass of \<^verbatim>\<open>BaseConverter\<close> sets, with the parsers
  \<^verbatim>\<open>_get_parsers\<close> returns. \<open>str_hash\<close> is the hash of the interpreter run: a
  \<^verbatim>\<open>set\<close> of strings is iterated in an order that depends on it, so the model
  iterates a set in the order of the hashes of its elements and holds for every choice
  of \<open>str_hash\<close>.
\<close>

record config =
  origin_class :: shape
  return_class :: shape
  return_compute_fields :: "(string \<times> (origin_instance \<Rightarrow> pyval result)) list"
  rename_pairs :: "(string \<times> string) list"
  return_type_hints :: "(string \<times> hint) list"
  exclude_fields :: "string list"
  get_parsers :: "parser list"
  str_hash :: "string \<Rightarrow> nat"

text \<open>The attributes of a converter after \<^verbatim>\<open>__init__\<close>.\<close>

record converter =
  parsers_mapping :: "hint \<times> hint \<rightharpoonup> parser"
  compute_fields_mapping :: "(string, origin_instance \<Rightarrow> pyval result) dict"
  origin_attrs :: "string list"
  return_hints :: "(string, hint) dict"
  return_attrs :: "string list"
  origin_rename :: "string list"
  return_rename :: "string list"
  origin_contains :: "string list"

definition setup_parsers :: "parser list \<Rightarrow> (hint \<times> hint \<rightharpoonup> parser)" where
  "setup_parsers ps =
     foldl (\<lambda>m p. foldl (\<lambda>m' key. m'(key \<mapsto> p)) m (get_parse_types p)) Map.empty ps"

definition parse_rename_mapping :: "(string \<times> string) list \<Rightarrow> string list \<times> string list" where
  "parse_rename_mapping doublet = (map fst doublet, map snd doublet)"

text \<open>A \<^verbatim>\<open>set\<close> built from a list, in the order it is iterated.\<close>

definition py_set :: "(string \<Rightarrow> nat) \<Rightarrow> string list \<Rightarrow> string list" where
  "py_set h xs = sort_key h (remdups xs)"

text \<open>
  \<^verbatim>\<open>self.return_hints\<close>: the hints of the target class, updated with the extra
  annotations of the configuration.
\<close>

definition target_hints :: "config \<Rightarrow> (string, hint) dict" where
  "target_hints cfg =
     dict_update (get_type_hints (return_class cfg)) (py_dict (return_type_hints cfg))"

definition setup_attrs :: "config \<Rightarrow> (hint \<times> hint \<rightharpoonup> parser) \<Rightarrow> converter result" where
  "setup_attrs cfg pm =
     (let cfm = py_dict (return_compute_fields cfg);
          return_compute_attrs_set = keys cfm;
          oattrs = keys (get_type_hints (origin_class cfg));
          rh = target_hints cfg
      in if length rh = 0 then Inl (ConfigError NoTypeHints)
         else
           let rattrs = filter (\<lambda>a. a \<notin> set (exclude_fields cfg) \<and> a \<notin> set return_compute_attrs_set)
                          (keys rh);
               (orn, rrn) = parse_rename_mapping (rename_pairs cfg);
               return_rename_set = remdups rrn
           in if length return_rename_set \<noteq> length rrn then Inl (ConfigError (DuplicateRename rrn))
              else Inr \<lparr>parsers_mapping = pm,
                        compute_fields_mapping = cfm,
                        origin_attrs = oattrs,
                        return_hints = rh,
                        return_attrs = rattrs,
                        origin_rename = orn,
                        return_rename = rrn,
                        origin_contains =
                          py_set (str_hash cfg)
                            (filter (\<lambda>a. a \<notin> set return_rename_set \<and> a \<in> set oattrs) rattrs)\<rparr>)"

text \<open>\<^verbatim>\<open>__init__\<close>: the parsers, then the attribute lists.\<close>

definition init :: "config \<Rightarrow> converter result" where
  "init cfg = setup_attrs cfg (setup_parsers (get_parsers cfg))"

definition get_origin_value_type :: "pyval \<Rightarrow> cls" where
  "get_origin_value_type val = py_type val"

text \<open>
  The exceptions the \<^verbatim>\<open>except (KeyError, ValueError)\<close> clause of
  \<^verbatim>\<open>_parse_rename\<close> catches.
\<close>

fun caught :: "exn \<Rightarrow> bool" where
  "caught (KeyError k) = True"
| "caught ValueError = True"
| "caught x = False"

text \<open>
  The body of the loop of \<^verbatim>\<open>_parse_rename\<close> up to the assignment: the value that
  goes into \<^verbatim>\<open>result[attr_to]\<close>, or the exception that leaves the loop.
\<close>

definition parse_attr :: "converter \<Rightarrow> origin_instance \<Rightarrow> string \<Rightarrow> string \<Rightarrow> pyval result" where
  "parse_attr c inst attr_from attr_to =
     (case getattr inst attr_from of
        Inl x \<Rightarrow> Inl x
      | Inr val \<Rightarrow>
          let val_type = get_origin_value_type val in
          (case map_of (return_hints c) attr_to of
             None \<Rightarrow> Inl (KeyError attr_to)
           | Some target_type \<Rightarrow>
               if Plain val_type \<noteq> target_type \<and> Optional (Plain val_type) \<noteq> target_type
                  \<and> val \<noteq> VNone
               then
                 (case parsers_mapping c (Plain val_type, target_type) of
                    None \<Rightarrow> Inl (ParsingError attr_from attr_to)
                  | Some p \<Rightarrow>
                      (case call p val of
                         Inl x \<Rightarrow> if caught x then Inl (ParsingError attr_from attr_to) else Inl x
                       | Inr val' \<Rightarrow> Inr val'))
               else Inr val))"

fun parse_rename_loop ::
  "converter \<Rightarrow> origin_instance \<Rightarrow> (string \<times> string) list \<Rightarrow> (string, pyval) dict \<Rightarrow> (string, pyval) dict result"
where
  "parse_rename_loop c inst [] result = Inr result"
| "parse_rename_loop c inst ((attr_from, attr_to) # rest) result =
     (case parse_attr c inst attr_from attr_to of
        Inl x \<Rightarrow> Inl x
      | Inr val \<Rightarrow> parse_rename_loop c inst rest (AList.update attr_to val result))"

definition parse_rename ::
  "converter \<Rightarrow> string list \<Rightarrow> string list \<Rightarrow> origin_instance \<Rightarrow> (string, pyval) dict result" where
  "parse_rename c origin return' inst = parse_rename_loop c inst (zip origin return') []"

definition parse_samename :: "converter \<Rightarrow> string list \<Rightarrow> origin_instance \<Rightarrow> (string, pyval) dict result" where
  "parse_samename c origin inst = parse_rename c origin origin inst"

fun parse_need_compute_loop ::
  "origin_instance \<Rightarrow> (string \<times> (origin_instance \<Rightarrow> pyval result)) list \<Rightarrow> (string, pyval) dict \<Rightarrow> (string, pyval) dict result"
where
  "parse_need_compute_loop inst [] result = Inr result"
| "parse_need_compute_loop inst ((attr, func) # rest) result =
     (case func inst of
        Inl x \<Rightarrow> Inl x
      | Inr val \<Rightarrow> parse_need_compute_loop inst rest (AList.update attr val result))"

definition parse_need_compute :: "converter \<Rightarrow> origin_instance \<Rightarrow> (string, pyval) dict result" where
  "parse_need_compute c inst = parse_need_compute_loop inst (compute_fields_mapping c) []"

text \<open>
  The call \<^verbatim>\<open>ReturnClass(**contains_result, **rename_result, **need_compute_result)\<close>:
  a name that two of the dictionaries supply is a \<^verbatim>\<open>TypeError\<close> before the
  constructor runs. The constructor belongs to the target class; the model returns the
  keyword arguments it is called with, which for a dataclass are the attributes of the
  instance it builds.
\<close>

definition call_kwargs ::
  "(string, pyval) dict \<Rightarrow> (string, pyval) dict \<Rightarrow> (string, pyval) dict \<Rightarrow> (string, pyval) dict result"
where
  "call_kwargs a b c =
     (if distinct (keys a @ keys b @ keys c) then Inr (a @ b @ c) else Inl TypeError)"

definition convert :: "converter \<Rightarrow> origin_instance \<Rightarrow> (string, pyval) dict result" where
  "convert c inst =
     (case parse_samename c (origin_contains c) inst of
        Inl x \<Rightarrow> Inl x
      | Inr contains_result \<Rightarrow>
          (case parse_rename c (origin_rename c) (return_rename c) inst of
             Inl x \<Rightarrow> Inl x
           | Inr rename_result \<Rightarrow>
               (case parse_need_compute c inst of
                  Inl x \<Rightarrow> Inl x
                | Inr need_compute_result \<Rightarrow>
                    call_kwargs contains_result rename_result need_compute_result)))"

text \<open>
  \<^verbatim>\<open>Converter().convert(instance)\<close>: a converter is built and used once, as the
  tests do.
\<close>

definition init_convert :: "config \<Rightarrow> origin_instance \<Rightarrow> (string, pyval) dict result" where
  "init_convert cfg inst = (case init cfg of Inl x \<Rightarrow> Inl x | Inr c \<Rightarrow> convert c inst)"

text \<open>
  The pairs of origin and target names \<^verbatim>\<open>convert\<close> goes through, in the order it
  does: the same-name attributes, then the renamed ones.
\<close>

definition field_pairs :: "converter \<Rightarrow> (string \<times> string) list" where
  "field_pairs c =
     zip (origin_contains c) (origin_contains c) @ zip (origin_rename c) (return_rename c)"

text \<open>
  The set of target fields as the specification resolves it: the declared hints of the
  target class with the extra annotations, without the excluded and the computed fields.
\<close>

definition resolved_target_fields :: "config \<Rightarrow> string set" where
  "resolved_target_fields cfg =
     (fst ` set (return_class cfg) \<union> fst ` set (return_type_hints cfg))
       - set (exclude_fields cfg) - fst ` set (return_compute_fields cfg)"

section \<open>The classes and converters of the test suite\<close>

definition A :: shape where
  "A = [(''attr1'', Plain TInt), (''attr2'', Plain TStr)]"

definition B :: shape where
  "B = [(''attr1'', Plain TInt), (''attr2'', Plain TInt)]"

definition C :: shape where
  "C = [(''attr1'', Plain TInt), (''attr2'', Plain TInt), (''attr3'', Plain TInt)]"

definition D :: shape where
  "D = [(''attr1'', Plain (TClass ''bytes''))]"

text \<open>
  A converter class that sets nothing but its two classes, with the parsers of
  \<^verbatim>\<open>BaseConverter._get_parsers\<close>.
\<close>

definition BaseConverter :: "shape \<Rightarrow> shape \<Rightarrow> config" where
  "BaseConverter origin_cls return_cls =
     \<lparr>origin_class = origin_cls, return_class = return_cls, return_compute_fields = [],
      rename_pairs = [], return_type_hints = [], exclude_fields = [],
      get_parsers = [StrIntParser, IntStrParser], str_hash = (\<lambda>s. 0)\<rparr>"

definition ABConverter :: config where
  "ABConverter = BaseConverter A B"

definition ACRenameConverter :: config where
  "ACRenameConverter = (BaseConverter A C)\<lparr>rename_pairs := [(''attr1'', ''attr3'')]\<rparr>"

definition ACComputeConverter :: config where
  "ACComputeConverter =
     (BaseConverter A C)\<lparr>return_compute_fields := [(''attr3'', \<lambda>x. getattr x ''attr1'')]\<rparr>"

definition ADConverter :: config where
  "ADConverter = BaseConverter A D"

definition EmptyTypeHints :: config where
  "EmptyTypeHints = BaseConverter A []"

definition DoubleRename :: config where
  "DoubleRename =
     (BaseConverter A B)\<lparr>rename_pairs := [(''attr1'', ''attr2''), (''attr1'', ''attr2'')]\<rparr>"

text \<open>The instance \<^verbatim>\<open>A(1, "1")\<close> of the tests.\<close>

definition a_1_1 :: origin_instance where
  "a_1_1 = [''attr1'' \<mapsto> VInt 1, ''attr2'' \<mapsto> VStr ''1'']"

text \<open>The instance \<^verbatim>\<open>A(1, None)\<close>.\<close>

definition a_1_None :: origin_instance where
  "a_1_None = [''attr1'' \<mapsto> VInt 1, ''attr2'' \<mapsto> VNone]"

text \<open>
  Configurations beside those of the tests. \<open>ADRenameStr\<close> adds to \<^verbatim>\<open>ADConverter\<close>
  a renamed attribute that has no parser either; \<open>ADRenameUnknown\<close> renames into a name
  the target has no hint for; \<open>EmptyRenameUnknown\<close> does so with a target without hints;
  \<open>ABAllExcluded\<close> excludes every attribute of the target; \<open>ACRenameCompute\<close> gives
  \<^verbatim>\<open>attr3\<close> both a rename pair and a computed field; \<open>ACRenameExcluded\<close> renames
  into an excluded attribute and \<open>ACComputeExcluded\<close> computes one.
\<close>

definition ADRenameStr :: config where
  "ADRenameStr =
     (BaseConverter A D)\<lparr>rename_pairs := [(''attr2'', ''attr3'')],
                          return_type_hints := [(''attr3'', Plain (TClass ''bytes''))]\<rparr>"

definition ADRenameUnknown :: config where
  "ADRenameUnknown = (BaseConverter A D)\<lparr>rename_pairs := [(''attr2'', ''attr9'')]\<rparr>"

definition ABRenameUnknown :: config where
  "ABRenameUnknown = (BaseConverter A B)\<lparr>rename_pairs := [(''attr2'', ''attr9'')]\<rparr>"

definition EmptyRenameUnknown :: config where
  "EmptyRenameUnknown = (BaseConverter A [])\<lparr>rename_pairs := [(''attr2'', ''attr9'')]\<rparr>"

definition ABAllExcluded :: config where
  "ABAllExcluded = (BaseConverter A B)\<lparr>exclude_fields := [''attr1'', ''attr2'']\<rparr>"

definition ACRenameCompute :: config where
  "ACRenameCompute =
     (BaseConverter A C)\<lparr>rename_pairs := [(''attr1'', ''attr3'')],
                          return_compute_fields := [(''attr3'', \<lambda>x. getattr x ''attr1'')]\<rparr>"

definition ACRenameExcluded :: config where
  "ACRenameExcluded =
     (BaseConverter A C)\<lparr>rename_pairs := [(''attr1'', ''attr3'')],
                          exclude_fields := [''attr3'']\<rparr>"

definition ACComputeExcluded :: config where
  "ACComputeExcluded =
     (BaseConverter A C)\<lparr>return_compute_fields := [(''attr3'', \<lambda>x. getattr x ''attr1'')],
                          exclude_fields := [''attr3'']\<rparr>"

text \<open>
  A converter from \<^verbatim>\<open>A\<close> to \<^verbatim>\<open>C\<close> that configures the computed field
  \<^verbatim>\<open>attr3\<close> twice, with two functions.
\<close>

definition ACComputeTwice :: config where
  "ACComputeTwice =
     (BaseConverter A C)\<lparr>return_compute_fields :=
        [(''attr3'', \<lambda>x. getattr x ''attr1''), (''attr3'', \<lambda>x. getattr x ''attr2'')]\<rparr>"

lemmas model_defs =
  init_convert_def init_def setup_attrs_def setup_parsers_def target_hints_def
  py_dict_def dict_update_def keys_def get_type_hints_def parse_rename_mapping_def py_set_def
  convert_def parse_samename_def parse_rename_def parse_attr_def getattr_def
  get_origin_value_type_def get_parse_types_def StrIntParser_def IntStrParser_def call_def
  parse_need_compute_def call_kwargs_def field_pairs_def
  int_of_str_def strip_def is_space_def is_digit_def digit_val_def

lemmas test_defs =
  A_def B_def C_def D_def BaseConverter_def ABConverter_def ACRenameConverter_def
  ACComputeConverter_def ADConverter_def EmptyTypeHints_def DoubleRename_def a_1_1_def
  a_1_None_def ADRenameStr_def ADRenameUnknown_def ABRenameUnknown_def
  EmptyRenameUnknown_def ABAllExcluded_def ACRenameCompute_def ACRenameExcluded_def
  ACComputeExcluded_def ACComputeTwice_def

section \<open>Dictionaries and the two loops\<close>

lemma dict_update_distinct:
  "distinct (map fst d) \<Longrightarrow> distinct (map fst (dict_update d ps))"
  unfolding dict_update_def
  by (induction ps arbitrary: d) (auto simp: distinct_update)

lemma dict_update_dom:
  "fst ` set (dict_update d ps) = fst ` set d \<union> fst ` set ps"
  unfolding dict_update_def
proof (induction ps arbitrary: d)
  case Nil
  then show ?case by simp
next
  case (Cons p ps)
  obtain k v where p: "p = (k, v)" by (cases p)
  have "fst ` set (AList.update k v d) = insert k (fst ` set d)"
    by (simp add: dom_update)
  with Cons.IH [of "AList.update k v d"] show ?case by (simp add: p)
qed

lemma py_dict_distinct: "distinct (keys (py_dict ps))"
  by (simp add: keys_def py_dict_def dict_update_distinct)

lemma py_dict_keys: "set (keys (py_dict ps)) = fst ` set ps"
  using dict_update_dom [of "[]" ps] by (simp add: keys_def py_dict_def)

lemma dict_update_fresh:
  "distinct (map fst ps) \<Longrightarrow> fst ` set d \<inter> fst ` set ps = {} \<Longrightarrow> dict_update d ps = d @ ps"
  unfolding dict_update_def
proof (induction ps arbitrary: d)
  case Nil
  then show ?case by simp
next
  case (Cons p ps)
  obtain k v where p: "p = (k, v)" by (cases p)
  from Cons.prems have k: "k \<notin> fst ` set d" by (auto simp: p)
  have upd: "AList.update k v d = d @ [(k, v)]"
    using k by (induction d) auto
  from Cons.prems have "distinct (map fst ps)" "fst ` set (d @ [(k, v)]) \<inter> fst ` set ps = {}"
    by (auto simp: p)
  from Cons.IH [OF this] show ?case by (simp add: p upd)
qed

lemma py_dict_id: "distinct (map fst ps) \<Longrightarrow> py_dict ps = ps"
  using dict_update_fresh [of ps "[]"] by (simp add: py_dict_def)

lemma target_hints_distinct: "distinct (keys (target_hints cfg))"
  using py_dict_distinct [of "return_class cfg"]
  by (simp add: target_hints_def get_type_hints_def keys_def dict_update_distinct)

lemma target_hints_keys:
  "set (keys (target_hints cfg)) = fst ` set (return_class cfg) \<union> fst ` set (return_type_hints cfg)"
  using py_dict_keys [of "return_class cfg"] py_dict_keys [of "return_type_hints cfg"]
  by (simp add: target_hints_def get_type_hints_def keys_def dict_update_dom)

lemma py_set_set: "set (py_set h xs) = set xs"
  by (simp add: py_set_def)

lemma py_set_distinct: "distinct (py_set h xs)"
  by (simp add: py_set_def)

lemma loop_other:
  "parse_rename_loop c inst ps acc = Inr res \<Longrightarrow> k \<notin> snd ` set ps \<Longrightarrow> map_of res k = map_of acc k"
proof (induction ps arbitrary: acc)
  case Nil
  then show ?case by simp
next
  case (Cons p ps)
  obtain f t where p: "p = (f, t)" by (cases p)
  from Cons.prems obtain v where v: "parse_attr c inst f t = Inr v"
    and rest: "parse_rename_loop c inst ps (AList.update t v acc) = Inr res"
    by (auto simp: p split: sum.splits)
  from Cons.prems have "k \<noteq> t" "k \<notin> snd ` set ps" by (auto simp: p)
  with Cons.IH [OF rest] show ?case by (simp add: update_conv')
qed

lemma loop_value:
  "parse_rename_loop c inst ps acc = Inr res \<Longrightarrow> distinct (map snd ps) \<Longrightarrow> (f, t) \<in> set ps \<Longrightarrow>
   \<exists>v. parse_attr c inst f t = Inr v \<and> map_of res t = Some v"
proof (induction ps arbitrary: acc)
  case Nil
  then show ?case by simp
next
  case (Cons p ps)
  obtain f' t' where p: "p = (f', t')" by (cases p)
  from Cons.prems obtain v where v: "parse_attr c inst f' t' = Inr v"
    and rest: "parse_rename_loop c inst ps (AList.update t' v acc) = Inr res"
    by (auto simp: p split: sum.splits)
  show ?case
  proof (cases "(f, t) = (f', t')")
    case True
    from Cons.prems have "t' \<notin> snd ` set ps" by (auto simp: p)
    from loop_other [OF rest this] have "map_of res t' = Some v" by (simp add: update_conv')
    with v True show ?thesis by simp
  next
    case False
    with Cons.prems have "(f, t) \<in> set ps" "distinct (map snd ps)" by (auto simp: p)
    from Cons.IH [OF rest this(2) this(1)] show ?thesis .
  qed
qed

lemma loop_keys:
  "parse_rename_loop c inst ps acc = Inr res \<Longrightarrow> set (keys res) = set (keys acc) \<union> snd ` set ps"
proof (induction ps arbitrary: acc)
  case Nil
  then show ?case by simp
next
  case (Cons p ps)
  obtain f t where p: "p = (f, t)" by (cases p)
  from Cons.prems obtain v where rest: "parse_rename_loop c inst ps (AList.update t v acc) = Inr res"
    by (auto simp: p split: sum.splits)
  have "set (keys (AList.update t v acc)) = insert t (set (keys acc))"
    using dom_update [of t v acc] by (simp add: keys_def)
  with Cons.IH [OF rest] show ?case by (auto simp: p)
qed

lemma loop_keys_distinct:
  "parse_rename_loop c inst ps acc = Inr res \<Longrightarrow> distinct (keys acc) \<Longrightarrow> distinct (keys res)"
proof (induction ps arbitrary: acc)
  case Nil
  then show ?case by simp
next
  case (Cons p ps)
  obtain f t where p: "p = (f, t)" by (cases p)
  from Cons.prems obtain v where rest: "parse_rename_loop c inst ps (AList.update t v acc) = Inr res"
    by (auto simp: p split: sum.splits)
  from Cons.prems have "distinct (keys (AList.update t v acc))"
    by (simp add: keys_def distinct_update)
  from Cons.IH [OF rest this] show ?case .
qed

lemma loop_all_ok:
  "parse_rename_loop c inst ps acc = Inr res \<Longrightarrow> (f, t) \<in> set ps \<Longrightarrow> \<exists>v. parse_attr c inst f t = Inr v"
proof (induction ps arbitrary: acc)
  case Nil
  then show ?case by simp
next
  case (Cons p ps)
  then show ?case by (cases p) (auto split: sum.splits)
qed

lemma loop_first_error:
  "\<forall>q\<in>set pre. \<exists>v. parse_attr c inst (fst q) (snd q) = Inr v \<Longrightarrow> parse_attr c inst f t = Inl x \<Longrightarrow>
   parse_rename_loop c inst (pre @ (f, t) # post) acc = Inl x"
proof (induction pre arbitrary: acc)
  case Nil
  then show ?case by simp
next
  case (Cons p pre)
  then show ?case by (cases p) auto
qed

lemma loop_total:
  "\<forall>q\<in>set ps. \<exists>v. parse_attr c inst (fst q) (snd q) = Inr v \<Longrightarrow>
   \<exists>res. parse_rename_loop c inst ps acc = Inr res"
proof (induction ps arbitrary: acc)
  case Nil
  then show ?case by simp
next
  case (Cons p ps)
  then show ?case by (cases p) auto
qed

lemma compute_other:
  "parse_need_compute_loop inst fs acc = Inr res \<Longrightarrow> k \<notin> fst ` set fs \<Longrightarrow> map_of res k = map_of acc k"
proof (induction fs arbitrary: acc)
  case Nil
  then show ?case by simp
next
  case (Cons p fs)
  obtain a g where p: "p = (a, g)" by (cases p)
  from Cons.prems obtain v where rest: "parse_need_compute_loop inst fs (AList.update a v acc) = Inr res"
    by (auto simp: p split: sum.splits)
  from Cons.prems have "k \<noteq> a" "k \<notin> fst ` set fs" by (auto simp: p)
  with Cons.IH [OF rest] show ?case by (simp add: update_conv')
qed

lemma compute_value:
  "parse_need_compute_loop inst fs acc = Inr res \<Longrightarrow> distinct (map fst fs) \<Longrightarrow> (a, g) \<in> set fs \<Longrightarrow>
   \<exists>v. g inst = Inr v \<and> map_of res a = Some v"
proof (induction fs arbitrary: acc)
  case Nil
  then show ?case by simp
next
  case (Cons p fs)
  obtain a' g' where p: "p = (a', g')" by (cases p)
  from Cons.prems obtain v where v: "g' inst = Inr v"
    and rest: "parse_need_compute_loop inst fs (AList.update a' v acc) = Inr res"
    by (auto simp: p split: sum.splits)
  show ?case
  proof (cases "(a, g) = (a', g')")
    case True
    from Cons.prems have "a' \<notin> fst ` set fs" by (auto simp: p)
    from compute_other [OF rest this] have "map_of res a' = Some v" by (simp add: update_conv')
    with v True show ?thesis by simp
  next
    case False
    with Cons.prems have "(a, g) \<in> set fs" "distinct (map fst fs)" by (auto simp: p)
    from Cons.IH [OF rest this(2) this(1)] show ?thesis .
  qed
qed

lemma compute_keys:
  "parse_need_compute_loop inst fs acc = Inr res \<Longrightarrow> set (keys res) = set (keys acc) \<union> fst ` set fs"
proof (induction fs arbitrary: acc)
  case Nil
  then show ?case by simp
next
  case (Cons p fs)
  obtain a g where p: "p = (a, g)" by (cases p)
  from Cons.prems obtain v where rest: "parse_need_compute_loop inst fs (AList.update a v acc) = Inr res"
    by (auto simp: p split: sum.splits)
  have "set (keys (AList.update a v acc)) = insert a (set (keys acc))"
    using dom_update [of a v acc] by (simp add: keys_def)
  with Cons.IH [OF rest] show ?case by (auto simp: p)
qed

section \<open>What \<^verbatim>\<open>__init__\<close> and \<^verbatim>\<open>convert\<close> establish\<close>

lemma init_InrD:
  assumes "init cfg = Inr c"
  shows "parsers_mapping c = setup_parsers (get_parsers cfg)"
    and "compute_fields_mapping c = py_dict (return_compute_fields cfg)"
    and "return_hints c = target_hints cfg"
    and "origin_rename c = map fst (rename_pairs cfg)"
    and "return_rename c = map snd (rename_pairs cfg)"
    and "distinct (return_rename c)"
    and "return_attrs c = filter (\<lambda>a. a \<notin> set (exclude_fields cfg)
           \<and> a \<notin> set (keys (py_dict (return_compute_fields cfg)))) (keys (target_hints cfg))"
    and "origin_contains c = py_set (str_hash cfg)
           (filter (\<lambda>a. a \<notin> set (return_rename c)
              \<and> a \<in> set (keys (get_type_hints (origin_class cfg)))) (return_attrs c))"
    and "target_hints cfg \<noteq> []"
  using assms
  by (auto simp: init_def setup_attrs_def Let_def parse_rename_mapping_def length_remdups_eq
      distinct_remdups_id remdups_id_iff_distinct split: if_splits)

lemma init_contains:
  assumes "init cfg = Inr c"
  shows "distinct (origin_contains c)"
    and "set (origin_contains c) \<inter> set (return_rename c) = {}"
    and "set (origin_contains c) \<inter> set (keys (compute_fields_mapping c)) = {}"
    and "set (origin_contains c) \<inter> set (exclude_fields cfg) = {}"
    and "set (origin_contains c) \<subseteq> set (keys (return_hints c))"
    and "distinct (keys (compute_fields_mapping c))"
  using init_InrD [OF assms]
  by (auto simp: py_set_set py_set_distinct py_dict_distinct)

lemma init_succeeds:
  assumes "target_hints cfg \<noteq> []" "distinct (map snd (rename_pairs cfg))"
  shows "\<exists>c. init cfg = Inr c"
  using assms
  by (simp add: init_def setup_attrs_def Let_def parse_rename_mapping_def)

lemma convert_InrD:
  assumes "convert c inst = Inr kw"
  obtains a b d where "parse_samename c (origin_contains c) inst = Inr a"
    and "parse_rename c (origin_rename c) (return_rename c) inst = Inr b"
    and "parse_need_compute c inst = Inr d"
    and "distinct (keys a @ keys b @ keys d)"
    and "kw = a @ b @ d"
  using assms
  by (auto simp: convert_def call_kwargs_def split: sum.splits if_splits)

lemma map_of_absent: "k \<notin> set (keys d) \<Longrightarrow> map_of d k = None"
  by (simp add: keys_def map_of_eq_None_iff)


lemma kwargs_lookup:
  "distinct (keys a @ keys b @ keys d) \<Longrightarrow> (k, v) \<in> set (a @ b @ d) \<Longrightarrow> map_of (a @ b @ d) k = Some v"
  by (rule map_of_is_SomeI) (simp_all add: keys_def)

lemma field_pairs_snd:
  assumes "init cfg = Inr c"
  shows "map snd (zip (origin_contains c) (origin_contains c)) = origin_contains c"
    and "map snd (zip (origin_rename c) (return_rename c)) = return_rename c"
  using init_InrD(4,5) [OF assms] by (simp_all add: map_snd_zip)

lemma convert_field_value:
  assumes i: "init cfg = Inr c" and cv: "convert c inst = Inr kw"
    and ft: "(f, t) \<in> set (field_pairs c)"
  shows "\<exists>v. parse_attr c inst f t = Inr v \<and> map_of kw t = Some v"
proof -
  from cv obtain a b d where a: "parse_samename c (origin_contains c) inst = Inr a"
    and b: "parse_rename c (origin_rename c) (return_rename c) inst = Inr b"
    and dist: "distinct (keys a @ keys b @ keys d)" and kw: "kw = a @ b @ d"
    by (rule convert_InrD)
  from ft consider "(f, t) \<in> set (zip (origin_contains c) (origin_contains c))"
    | "(f, t) \<in> set (zip (origin_rename c) (return_rename c))"
    by (auto simp: field_pairs_def)
  then show ?thesis
  proof cases
    case 1
    have "distinct (map snd (zip (origin_contains c) (origin_contains c)))"
      using init_contains(1) [OF i] field_pairs_snd(1) [OF i] by simp
    with a 1 obtain v where v: "parse_attr c inst f t = Inr v" "map_of a t = Some v"
      unfolding parse_samename_def parse_rename_def by (blast dest: loop_value)
    from v(2) have "(t, v) \<in> set (a @ b @ d)" by (auto dest: map_of_SomeD)
    from kwargs_lookup [OF dist this] have "map_of kw t = Some v" unfolding kw .
    with v(1) show ?thesis by blast
  next
    case 2
    have "distinct (map snd (zip (origin_rename c) (return_rename c)))"
      using init_InrD(6) [OF i] field_pairs_snd(2) [OF i] by simp
    with b 2 obtain v where v: "parse_attr c inst f t = Inr v" "map_of b t = Some v"
      unfolding parse_rename_def by (blast dest: loop_value)
    from v(2) have "(t, v) \<in> set (a @ b @ d)" by (auto dest: map_of_SomeD)
    from kwargs_lookup [OF dist this] have "map_of kw t = Some v" unfolding kw .
    with v(1) show ?thesis by blast
  qed
qed

lemma parse_attr_pass:
  assumes "inst f = Some v" "map_of (return_hints c) t = Some ty"
    and "Plain (get_origin_value_type v) = ty \<or> Optional (Plain (get_origin_value_type v)) = ty \<or> v = VNone"
  shows "parse_attr c inst f t = Inr v"
  using assms by (auto simp: parse_attr_def getattr_def)

lemma parse_attr_coerce:
  assumes "inst f = Some v" "map_of (return_hints c) t = Some ty"
    and "Plain (get_origin_value_type v) \<noteq> ty" "Optional (Plain (get_origin_value_type v)) \<noteq> ty"
    and "v \<noteq> VNone"
  shows "parse_attr c inst f t =
     (case parsers_mapping c (Plain (get_origin_value_type v), ty) of
        None \<Rightarrow> Inl (ParsingError f t)
      | Some p \<Rightarrow> (case call p v of
                    Inl x \<Rightarrow> if caught x then Inl (ParsingError f t) else Inl x
                  | Inr v' \<Rightarrow> Inr v'))"
  using assms by (simp add: parse_attr_def getattr_def)

section \<open>Coercion, pass-through and null values\<close>

text \<open>
  C1. Take a converter that initialised and an instance it converts. For every same-name
  or renamed pair of attributes whose value has a class that is neither the hint of the
  target attribute nor that hint under \<^verbatim>\<open>Optional\<close>, and for which a parser is
  registered under (class of the value, hint of the target), the target attribute of the
  result is what that parser returns on the value. In particular \<^verbatim>\<open>A(1, "1")\<close>
  goes to \<^verbatim>\<open>B(1, 1)\<close> through \<^verbatim>\<open>ABConverter\<close>.
\<close>

theorem convert_applies_registered_coercion:
  "(\<forall>cfg c inst kw attr_from attr_to val target_type p.
      init cfg = Inr c \<and> convert c inst = Inr kw
      \<and> (attr_from, attr_to) \<in> set (field_pairs c)
      \<and> inst attr_from = Some val
      \<and> map_of (return_hints c) attr_to = Some target_type
      \<and> Plain (get_origin_value_type val) \<noteq> target_type
      \<and> Optional (Plain (get_origin_value_type val)) \<noteq> target_type
      \<and> parsers_mapping c (Plain (get_origin_value_type val), target_type) = Some p
      \<longrightarrow> (\<exists>out. call p val = Inr out \<and> map_of kw attr_to = Some out))
   \<and> init_convert ABConverter a_1_1 = Inr [(''attr1'', VInt 1), (''attr2'', VInt 1)]"
proof (intro conjI allI impI)
  fix cfg c inst kw attr_from attr_to val target_type p
  assume h: "init cfg = Inr c \<and> convert c inst = Inr kw
      \<and> (attr_from, attr_to) \<in> set (field_pairs c)
      \<and> inst attr_from = Some val
      \<and> map_of (return_hints c) attr_to = Some target_type
      \<and> Plain (get_origin_value_type val) \<noteq> target_type
      \<and> Optional (Plain (get_origin_value_type val)) \<noteq> target_type
      \<and> parsers_mapping c (Plain (get_origin_value_type val), target_type) = Some p"
  then obtain v where v: "parse_attr c inst attr_from attr_to = Inr v" "map_of kw attr_to = Some v"
    using convert_field_value by blast
  show "\<exists>out. call p val = Inr out \<and> map_of kw attr_to = Some out"
  proof (cases "val = VNone")
    case True
    with h have "parse_attr c inst attr_from attr_to = Inr VNone"
      by (simp add: parse_attr_pass)
    with v True show ?thesis by (simp add: call_def)
  next
    case False
    with h have "parse_attr c inst attr_from attr_to =
        (case call p val of Inl x \<Rightarrow> if caught x then Inl (ParsingError attr_from attr_to) else Inl x
         | Inr v' \<Rightarrow> Inr v')"
      by (simp add: parse_attr_coerce)
    with v show ?thesis by (auto split: sum.splits if_splits)
  qed
next
  show "init_convert ABConverter a_1_1 = Inr [(''attr1'', VInt 1), (''attr2'', VInt 1)]"
    by (simp add: model_defs test_defs)
qed

theorem convert_applies_registered_coercion_witness:
  "init ABConverter = Inr (projr (init ABConverter))
   \<and> convert (projr (init ABConverter)) a_1_1 = Inr [(''attr1'', VInt 1), (''attr2'', VInt 1)]
   \<and> (''attr2'', ''attr2'') \<in> set (field_pairs (projr (init ABConverter)))
   \<and> a_1_1 ''attr2'' = Some (VStr ''1'')
   \<and> map_of (return_hints (projr (init ABConverter))) ''attr2'' = Some (Plain TInt)
   \<and> Plain (get_origin_value_type (VStr ''1'')) \<noteq> Plain TInt
   \<and> Optional (Plain (get_origin_value_type (VStr ''1''))) \<noteq> Plain TInt
   \<and> parsers_mapping (projr (init ABConverter)) (Plain (get_origin_value_type (VStr ''1'')), Plain TInt)
       = Some StrIntParser
   \<and> call StrIntParser (VStr ''1'') = Inr (VInt 1)
   \<and> map_of [(''attr1'', VInt 1), (''attr2'', VInt 1)] ''attr2'' = Some (VInt 1)"
proof -
  let ?c = "projr (init ABConverter)"
  have h: "init ABConverter = Inr ?c \<and> convert ?c a_1_1 = Inr [(''attr1'', VInt 1), (''attr2'', VInt 1)]
      \<and> (''attr2'', ''attr2'') \<in> set (field_pairs ?c)
      \<and> a_1_1 ''attr2'' = Some (VStr ''1'')
      \<and> map_of (return_hints ?c) ''attr2'' = Some (Plain TInt)
      \<and> Plain (get_origin_value_type (VStr ''1'')) \<noteq> Plain TInt
      \<and> Optional (Plain (get_origin_value_type (VStr ''1''))) \<noteq> Plain TInt
      \<and> parsers_mapping ?c (Plain (get_origin_value_type (VStr ''1'')), Plain TInt) = Some StrIntParser"
    by (simp add: model_defs test_defs)
  with convert_applies_registered_coercion
  have "\<exists>out. call StrIntParser (VStr ''1'') = Inr out
          \<and> map_of [(''attr1'', VInt 1), (''attr2'', VInt 1)] ''attr2'' = Some out"
    by blast
  then have "call StrIntParser (VStr ''1'') = Inr (VInt 1)
          \<and> map_of [(''attr1'', VInt 1), (''attr2'', VInt 1)] ''attr2'' = Some (VInt 1)"
    by auto
  with h show ?thesis by blast
qed


text \<open>
  C2. Take a converter that initialised and an instance it converts. A same-name or
  renamed attribute whose value has exactly the class the target hint names, or whose
  class under \<^verbatim>\<open>Optional\<close> is the target hint, reaches the target attribute as it
  is, whatever parsers are registered.
\<close>

theorem convert_passes_matching_value:
  assumes "init cfg = Inr c" and "convert c inst = Inr kw"
    and "(attr_from, attr_to) \<in> set (field_pairs c)"
    and "inst attr_from = Some val"
    and "map_of (return_hints c) attr_to = Some target_type"
    and "Plain (get_origin_value_type val) = target_type
         \<or> Optional (Plain (get_origin_value_type val)) = target_type"
  shows "parse_attr c inst attr_from attr_to = Inr val \<and> map_of kw attr_to = Some val"
proof -
  from assms(4-6) have "parse_attr c inst attr_from attr_to = Inr val"
    by (auto simp: parse_attr_pass)
  with convert_field_value [OF assms(1-3)] show ?thesis by auto
qed

theorem convert_passes_matching_value_witness:
  "init ABConverter = Inr (projr (init ABConverter))
   \<and> convert (projr (init ABConverter)) a_1_1 = Inr [(''attr1'', VInt 1), (''attr2'', VInt 1)]
   \<and> (''attr1'', ''attr1'') \<in> set (field_pairs (projr (init ABConverter)))
   \<and> a_1_1 ''attr1'' = Some (VInt 1)
   \<and> map_of (return_hints (projr (init ABConverter))) ''attr1'' = Some (Plain TInt)
   \<and> Plain (get_origin_value_type (VInt 1)) = Plain TInt
   \<and> parse_attr (projr (init ABConverter)) a_1_1 ''attr1'' ''attr1'' = Inr (VInt 1)
   \<and> map_of [(''attr1'', VInt 1), (''attr2'', VInt 1)] ''attr1'' = Some (VInt 1)"
proof -
  let ?c = "projr (init ABConverter)"
  have h1: "init ABConverter = Inr ?c" by (simp add: model_defs test_defs)
  have h2: "convert ?c a_1_1 = Inr [(''attr1'', VInt 1), (''attr2'', VInt 1)]"
    by (simp add: model_defs test_defs)
  have h3: "(''attr1'', ''attr1'') \<in> set (field_pairs ?c)" by (simp add: model_defs test_defs)
  have h4: "a_1_1 ''attr1'' = Some (VInt 1)" by (simp add: a_1_1_def)
  have h5: "map_of (return_hints ?c) ''attr1'' = Some (Plain TInt)"
    by (simp add: model_defs test_defs)
  have h6: "Plain (get_origin_value_type (VInt 1)) = Plain TInt"
    by (simp add: get_origin_value_type_def)
  from convert_passes_matching_value [OF h1 h2 h3 h4 h5 disjI1 [OF h6]] h1 h2 h3 h4 h5 h6
  show ?thesis by blast
qed

text \<open>
  C4. Take a converter that initialised and an instance it converts. A same-name or
  renamed attribute whose value is \<^verbatim>\<open>None\<close> reaches the target attribute as
  \<^verbatim>\<open>None\<close>: the loop does not look at the registered parsers, whatever the hint
  of the target attribute is.
\<close>

theorem convert_none_is_none:
  assumes "init cfg = Inr c" and "convert c inst = Inr kw"
    and "(attr_from, attr_to) \<in> set (field_pairs c)"
    and "inst attr_from = Some VNone"
  shows "parse_attr c inst attr_from attr_to = Inr VNone \<and> map_of kw attr_to = Some VNone"
proof -
  from convert_field_value [OF assms(1-3)] obtain v
    where v: "parse_attr c inst attr_from attr_to = Inr v" "map_of kw attr_to = Some v"
    by blast
  from v(1) assms(4) obtain target_type
    where "map_of (return_hints c) attr_to = Some target_type"
    by (cases "map_of (return_hints c) attr_to") (simp_all add: parse_attr_def getattr_def)
  with assms(4) have "parse_attr c inst attr_from attr_to = Inr VNone"
    by (simp add: parse_attr_pass)
  with v show ?thesis by simp
qed

theorem convert_none_is_none_witness:
  "init ABConverter = Inr (projr (init ABConverter))
   \<and> convert (projr (init ABConverter)) a_1_None = Inr [(''attr1'', VInt 1), (''attr2'', VNone)]
   \<and> (''attr2'', ''attr2'') \<in> set (field_pairs (projr (init ABConverter)))
   \<and> a_1_None ''attr2'' = Some VNone
   \<and> parse_attr (projr (init ABConverter)) a_1_None ''attr2'' ''attr2'' = Inr VNone
   \<and> map_of [(''attr1'', VInt 1), (''attr2'', VNone)] ''attr2'' = Some VNone"
proof -
  let ?c = "projr (init ABConverter)"
  have h1: "init ABConverter = Inr ?c" by (simp add: model_defs test_defs)
  have h2: "convert ?c a_1_None = Inr [(''attr1'', VInt 1), (''attr2'', VNone)]"
    by (simp add: model_defs test_defs a_1_None_def)
  have h3: "(''attr2'', ''attr2'') \<in> set (field_pairs ?c)" by (simp add: model_defs test_defs)
  have h4: "a_1_None ''attr2'' = Some VNone" by (simp add: a_1_None_def)
  from convert_none_is_none [OF h1 h2 h3 h4] h1 h2 h3 h4 show ?thesis by blast
qed

section \<open>Computed fields\<close>

text \<open>
  \<^verbatim>\<open>dict(pairs)\<close> keeps, for a key that occurs more than once, the value of its
  last pair.
\<close>

lemma dict_update_last:
  "map_of (dict_update d ps) = map_of d ++ map_of (rev ps)"
  unfolding dict_update_def
proof (induction ps arbitrary: d)
  case Nil
  then show ?case by simp
next
  case (Cons p ps)
  obtain k v where p: "p = (k, v)" by (cases p)
  have "map_of (AList.update k v d) ++ map_of (rev ps) = map_of d ++ map_of (rev ps @ [(k, v)])"
    by (simp add: update_conv' map_add_upd_left fun_eq_iff map_add_def split: option.splits)
  with Cons.IH [of "AList.update k v d"] show ?case by (simp add: p)
qed

lemma py_dict_last: "map_of (py_dict ps) = map_of (rev ps)"
  by (simp add: py_dict_def dict_update_last)

lemma last_pair_distinct:
  "distinct (map fst ps) \<Longrightarrow> (k, v) \<in> set ps \<Longrightarrow> map_of (rev ps) k = Some v"
  by (rule map_of_is_SomeI) (simp_all add: rev_map [symmetric])

lemma compute_fields_mapping_config:
  assumes "init cfg = Inr c" and "distinct (map fst (return_compute_fields cfg))"
  shows "compute_fields_mapping c = return_compute_fields cfg"
  using init_InrD(2) [OF assms(1)] py_dict_id [OF assms(2)] by simp

lemma convert_compute_mapping_entry:
  assumes "init cfg = Inr c" and "convert c inst = Inr kw"
    and "(attr, func) \<in> set (compute_fields_mapping c)"
  shows "\<exists>out. func inst = Inr out \<and> map_of kw attr = Some out"
proof -
  from assms(2) obtain a b d where d: "parse_need_compute c inst = Inr d"
    and dist: "distinct (keys a @ keys b @ keys d)" and kw: "kw = a @ b @ d"
    by (rule convert_InrD)
  have "distinct (map fst (compute_fields_mapping c))"
    using init_contains(6) [OF assms(1)] by (simp add: keys_def)
  with d assms(3) obtain out where out: "func inst = Inr out" "map_of d attr = Some out"
    unfolding parse_need_compute_def by (blast dest: compute_value)
  from out(2) have "(attr, out) \<in> set (a @ b @ d)" by (auto dest: map_of_SomeD)
  from kwargs_lookup [OF dist this] have "map_of kw attr = Some out" unfolding kw .
  with out(1) show ?thesis by blast
qed

text \<open>
  C5 as it is stated does not hold: \<^verbatim>\<open>_setup_attrs\<close> turns the configured pairs
  into a dictionary, so of two pairs with one name only the last is kept.
  \<open>ACComputeTwice\<close> configures \<^verbatim>\<open>attr3\<close> with a function that returns
  \<^verbatim>\<open>attr1\<close> and then with one that returns \<^verbatim>\<open>attr2\<close>: for
  \<^verbatim>\<open>A(1, "1")\<close> the first pair is configured and returns 1, and the target
  attribute is the string of the second.
\<close>

theorem computed_field_duplicate_counterexample:
  "(''attr3'', \<lambda>x. getattr x ''attr1'') \<in> set (return_compute_fields ACComputeTwice)
   \<and> getattr a_1_1 ''attr1'' = Inr (VInt 1)
   \<and> init ACComputeTwice = Inr (projr (init ACComputeTwice))
   \<and> convert (projr (init ACComputeTwice)) a_1_1
       = Inr [(''attr1'', VInt 1), (''attr2'', VInt 1), (''attr3'', VStr ''1'')]
   \<and> map_of [(''attr1'', VInt 1), (''attr2'', VInt 1), (''attr3'', VStr ''1'')] ''attr3''
       \<noteq> Some (VInt 1)"
  by (simp add: model_defs test_defs)

text \<open>
  C5, amended. Take a converter that initialised and an instance it converts. For every
  configured computed field (name, function) that is the last pair configured for its
  name, which every configured pair is when the configured names are distinct, the
  target attribute of that name is exactly what the function returns on the instance:
  no hint is looked up and no parser is applied. The last pair of a name is the one
  \<open>map_of\<close> finds in the reversed list.
\<close>

theorem convert_last_computed_field:
  assumes "init cfg = Inr c" and "convert c inst = Inr kw"
    and "map_of (rev (return_compute_fields cfg)) attr = Some func
         \<or> (distinct (map fst (return_compute_fields cfg))
             \<and> (attr, func) \<in> set (return_compute_fields cfg))"
  shows "\<exists>out. func inst = Inr out \<and> map_of kw attr = Some out"
proof -
  from assms(3) have "map_of (rev (return_compute_fields cfg)) attr = Some func"
    by (auto simp: last_pair_distinct)
  then have "map_of (compute_fields_mapping c) attr = Some func"
    by (simp add: init_InrD(2) [OF assms(1)] py_dict_last)
  then have "(attr, func) \<in> set (compute_fields_mapping c)" by (rule map_of_SomeD)
  with assms(1,2) show ?thesis by (rule convert_compute_mapping_entry)
qed

theorem convert_last_computed_field_witness:
  "init ACComputeTwice = Inr (projr (init ACComputeTwice))
   \<and> convert (projr (init ACComputeTwice)) a_1_1
       = Inr [(''attr1'', VInt 1), (''attr2'', VInt 1), (''attr3'', VStr ''1'')]
   \<and> map_of (rev (return_compute_fields ACComputeTwice)) ''attr3''
       = Some (\<lambda>x. getattr x ''attr2'')
   \<and> getattr a_1_1 ''attr2'' = Inr (VStr ''1'')
   \<and> map_of [(''attr1'', VInt 1), (''attr2'', VInt 1), (''attr3'', VStr ''1'')] ''attr3''
       = Some (VStr ''1'')"
proof -
  let ?c = "projr (init ACComputeTwice)"
  have h1: "init ACComputeTwice = Inr ?c" by (simp add: model_defs test_defs)
  have h2: "convert ?c a_1_1 = Inr [(''attr1'', VInt 1), (''attr2'', VInt 1), (''attr3'', VStr ''1'')]"
    by (simp add: model_defs test_defs)
  have h3: "map_of (rev (return_compute_fields ACComputeTwice)) ''attr3''
      = Some (\<lambda>x. getattr x ''attr2'')"
    by (simp add: test_defs)
  from convert_last_computed_field [OF h1 h2 disjI1 [OF h3]] h1 h2 h3 show ?thesis
    by (auto simp: getattr_def a_1_1_def)
qed

section \<open>Configuration errors\<close>

text \<open>
  C7. A configuration in which two rename pairs have the same target name does not
  initialise: \<^verbatim>\<open>__init__\<close> raises \<^verbatim>\<open>ConfigError\<close>.
\<close>

theorem duplicate_rename_target_config_error:
  assumes "\<not> distinct (map snd (rename_pairs cfg))"
  shows "\<exists>problem. init cfg = Inl (ConfigError problem)"
  using assms
  by (simp add: init_def setup_attrs_def Let_def parse_rename_mapping_def length_remdups_eq
      remdups_id_iff_distinct)

theorem duplicate_rename_target_config_error_witness:
  "\<not> distinct (map snd (rename_pairs DoubleRename))
   \<and> init DoubleRename = Inl (ConfigError (DuplicateRename [''attr2'', ''attr2'']))"
proof -
  have h: "\<not> distinct (map snd (rename_pairs DoubleRename))" by (simp add: test_defs)
  from duplicate_rename_target_config_error [OF h] h show ?thesis
    by (auto simp: model_defs test_defs)
qed


section \<open>The first pair that fails\<close>

lemma append_split:
  "xs @ ys = pre @ p # post \<Longrightarrow>
   (\<exists>us. xs = pre @ p # us) \<or> (\<exists>us. pre = xs @ us \<and> ys = us @ p # post)"
  by (auto simp: append_eq_append_conv2 append_eq_Cons_conv)

lemma convert_first_error:
  assumes fp: "field_pairs c = pre @ (f, t) # post"
    and pre: "\<forall>q\<in>set pre. \<exists>v. parse_attr c inst (fst q) (snd q) = Inr v"
    and err: "parse_attr c inst f t = Inl x"
  shows "convert c inst = Inl x"
proof -
  let ?xs = "zip (origin_contains c) (origin_contains c)"
  let ?ys = "zip (origin_rename c) (return_rename c)"
  from fp have "?xs @ ?ys = pre @ (f, t) # post" by (simp add: field_pairs_def)
  from append_split [OF this]
  consider us where "?xs = pre @ (f, t) # us"
    | us where "pre = ?xs @ us" "?ys = us @ (f, t) # post"
    by blast
  then show ?thesis
  proof cases
    case 1
    from loop_first_error [OF pre err]
    have "parse_rename_loop c inst ?xs [] = Inl x" by (simp add: 1)
    then show ?thesis by (simp add: convert_def parse_samename_def parse_rename_def)
  next
    case 2
    from pre 2(1) have "\<forall>q\<in>set ?xs. \<exists>v. parse_attr c inst (fst q) (snd q) = Inr v"
      and us: "\<forall>q\<in>set us. \<exists>v. parse_attr c inst (fst q) (snd q) = Inr v"
      by auto
    from loop_total [OF this(1)] obtain a where a: "parse_rename_loop c inst ?xs [] = Inr a"
      by blast
    from loop_first_error [OF us err]
    have "parse_rename_loop c inst ?ys [] = Inl x" by (simp add: 2(2))
    with a show ?thesis by (simp add: convert_def parse_samename_def parse_rename_def)
  qed
qed

text \<open>
  C3 as it is stated does not hold: \<^verbatim>\<open>convert\<close> stops at the first pair that
  fails. In \<open>ADRenameStr\<close> the renamed pair \<^verbatim>\<open>attr2\<close>, \<^verbatim>\<open>attr3\<close> has a
  string for a \<^verbatim>\<open>bytes\<close> hint and no parser, yet the error names the same-name
  pair \<^verbatim>\<open>attr1\<close>, which fails before it.
\<close>

theorem parsing_error_counterexample:
  "init ADRenameStr = Inr (projr (init ADRenameStr))
   \<and> (''attr2'', ''attr3'') \<in> set (field_pairs (projr (init ADRenameStr)))
   \<and> a_1_1 ''attr2'' = Some (VStr ''1'')
   \<and> map_of (return_hints (projr (init ADRenameStr))) ''attr3'' = Some (Plain (TClass ''bytes''))
   \<and> Plain (get_origin_value_type (VStr ''1'')) \<noteq> Plain (TClass ''bytes'')
   \<and> Optional (Plain (get_origin_value_type (VStr ''1''))) \<noteq> Plain (TClass ''bytes'')
   \<and> VStr ''1'' \<noteq> VNone
   \<and> parsers_mapping (projr (init ADRenameStr))
        (Plain (get_origin_value_type (VStr ''1'')), Plain (TClass ''bytes'')) = None
   \<and> convert (projr (init ADRenameStr)) a_1_1 = Inl (ParsingError ''attr1'' ''attr1'')
   \<and> convert (projr (init ADRenameStr)) a_1_1 \<noteq> Inl (ParsingError ''attr2'' ''attr3'')"
  by (simp add: model_defs test_defs)

text \<open>
  C3, amended. Let a same-name or renamed pair be such that every pair
  \<^verbatim>\<open>convert\<close> goes through before it gives a value. If its value is not
  \<^verbatim>\<open>None\<close>, the class of the value is neither the target hint nor the hint under
  \<^verbatim>\<open>Optional\<close>, and either no parser is registered for the pair of types or the
  registered parser raises \<^verbatim>\<open>ValueError\<close> or \<^verbatim>\<open>KeyError\<close>, then
  \<^verbatim>\<open>convert\<close> raises \<^verbatim>\<open>ParsingError\<close> with the two names of that pair.
\<close>

theorem parsing_error_first_failing_pair:
  assumes "field_pairs c = pre @ (attr_from, attr_to) # post"
    and "\<forall>q\<in>set pre. \<exists>v. parse_attr c inst (fst q) (snd q) = Inr v"
    and "inst attr_from = Some val"
    and "map_of (return_hints c) attr_to = Some target_type"
    and "Plain (get_origin_value_type val) \<noteq> target_type"
    and "Optional (Plain (get_origin_value_type val)) \<noteq> target_type"
    and "val \<noteq> VNone"
    and "parsers_mapping c (Plain (get_origin_value_type val), target_type) = None
         \<or> (\<exists>p x. parsers_mapping c (Plain (get_origin_value_type val), target_type) = Some p
                \<and> call p val = Inl x \<and> caught x)"
  shows "convert c inst = Inl (ParsingError attr_from attr_to)"
proof -
  have "parse_attr c inst attr_from attr_to =
     (case parsers_mapping c (Plain (get_origin_value_type val), target_type) of
        None \<Rightarrow> Inl (ParsingError attr_from attr_to)
      | Some p \<Rightarrow> (case call p val of
                    Inl x \<Rightarrow> if caught x then Inl (ParsingError attr_from attr_to) else Inl x
                  | Inr v' \<Rightarrow> Inr v'))"
    using assms(3-7) by (rule parse_attr_coerce)
  with assms(8) have "parse_attr c inst attr_from attr_to = Inl (ParsingError attr_from attr_to)"
    by auto
  from convert_first_error [OF assms(1,2) this] show ?thesis .
qed

theorem parsing_error_first_failing_pair_witness:
  "field_pairs (projr (init ADRenameStr)) = [] @ (''attr1'', ''attr1'') # [(''attr2'', ''attr3'')]
   \<and> a_1_1 ''attr1'' = Some (VInt 1)
   \<and> map_of (return_hints (projr (init ADRenameStr))) ''attr1'' = Some (Plain (TClass ''bytes''))
   \<and> Plain (get_origin_value_type (VInt 1)) \<noteq> Plain (TClass ''bytes'')
   \<and> Optional (Plain (get_origin_value_type (VInt 1))) \<noteq> Plain (TClass ''bytes'')
   \<and> VInt 1 \<noteq> VNone
   \<and> parsers_mapping (projr (init ADRenameStr))
        (Plain (get_origin_value_type (VInt 1)), Plain (TClass ''bytes'')) = None
   \<and> convert (projr (init ADRenameStr)) a_1_1 = Inl (ParsingError ''attr1'' ''attr1'')"
proof -
  let ?c = "projr (init ADRenameStr)"
  have h1: "field_pairs ?c = [] @ (''attr1'', ''attr1'') # [(''attr2'', ''attr3'')]"
    by (simp add: model_defs test_defs)
  have h2: "\<forall>q\<in>set []. \<exists>v. parse_attr ?c a_1_1 (fst q) (snd q) = Inr v" by simp
  have h3: "a_1_1 ''attr1'' = Some (VInt 1)" by (simp add: a_1_1_def)
  have h4: "map_of (return_hints ?c) ''attr1'' = Some (Plain (TClass ''bytes''))"
    by (simp add: model_defs test_defs)
  have h5: "Plain (get_origin_value_type (VInt 1)) \<noteq> Plain (TClass ''bytes'')"
    by (simp add: get_origin_value_type_def)
  have h6: "Optional (Plain (get_origin_value_type (VInt 1))) \<noteq> Plain (TClass ''bytes'')"
    by (simp add: get_origin_value_type_def)
  have h7: "VInt 1 \<noteq> VNone" by simp
  have h8: "parsers_mapping ?c (Plain (get_origin_value_type (VInt 1)), Plain (TClass ''bytes'')) = None"
    by (simp add: model_defs test_defs)
  from parsing_error_first_failing_pair [OF h1 h2 h3 h4 h5 h6 h7 disjI1 [OF h8]]
    h1 h3 h4 h5 h6 h7 h8
  show ?thesis by blast
qed


section \<open>Initialisation and the hints of the target\<close>

text \<open>
  C6 as it is stated does not hold: \<^verbatim>\<open>_setup_attrs\<close> tests the hints of the target
  before it removes the excluded and the computed fields. \<open>ABAllExcluded\<close> excludes both
  attributes of \<^verbatim>\<open>B\<close>: the resolved set is empty and \<^verbatim>\<open>__init__\<close> returns a
  converter, with no target attribute left.
\<close>

theorem empty_resolved_fields_counterexample:
  "resolved_target_fields ABAllExcluded = {}
   \<and> init ABAllExcluded = Inr (projr (init ABAllExcluded))
   \<and> return_attrs (projr (init ABAllExcluded)) = []"
  by (simp add: model_defs test_defs resolved_target_fields_def)

lemma resolved_fields_subset:
  "resolved_target_fields cfg \<subseteq> set (keys (target_hints cfg))"
  by (auto simp: resolved_target_fields_def target_hints_keys)

text \<open>
  C6, amended. When the hints of the target, after the extra annotations are added and
  before excluded and computed fields are removed, are empty, \<^verbatim>\<open>__init__\<close> raises
  \<^verbatim>\<open>ConfigError\<close>. When they are not empty, which is the case whenever the resolved
  set of target fields is not empty, and the rename targets are distinct,
  \<^verbatim>\<open>__init__\<close> returns a converter.
\<close>

theorem init_checks_target_hints:
  "(target_hints cfg = [] \<longrightarrow> init cfg = Inl (ConfigError NoTypeHints))
   \<and> (target_hints cfg \<noteq> [] \<and> distinct (map snd (rename_pairs cfg)) \<longrightarrow> (\<exists>c. init cfg = Inr c))
   \<and> (resolved_target_fields cfg \<noteq> {} \<and> distinct (map snd (rename_pairs cfg))
        \<longrightarrow> (\<exists>c. init cfg = Inr c))"
proof (intro conjI impI)
  assume "target_hints cfg = []"
  then show "init cfg = Inl (ConfigError NoTypeHints)"
    by (simp add: init_def setup_attrs_def)
next
  assume "target_hints cfg \<noteq> [] \<and> distinct (map snd (rename_pairs cfg))"
  then show "\<exists>c. init cfg = Inr c" by (simp add: init_succeeds)
next
  assume h: "resolved_target_fields cfg \<noteq> {} \<and> distinct (map snd (rename_pairs cfg))"
  with resolved_fields_subset [of cfg] have "target_hints cfg \<noteq> []"
    by (auto simp: keys_def)
  with h show "\<exists>c. init cfg = Inr c" by (simp add: init_succeeds)
qed

theorem init_checks_target_hints_witness:
  "target_hints EmptyTypeHints = []
   \<and> init EmptyTypeHints = Inl (ConfigError NoTypeHints)
   \<and> target_hints ABConverter \<noteq> []
   \<and> resolved_target_fields ABConverter \<noteq> {}
   \<and> distinct (map snd (rename_pairs ABConverter))
   \<and> init ABConverter = Inr (projr (init ABConverter))"
proof -
  have h1: "target_hints EmptyTypeHints = []" by (simp add: model_defs test_defs)
  have h2: "target_hints ABConverter \<noteq> []" by (simp add: model_defs test_defs)
  have h3: "resolved_target_fields ABConverter \<noteq> {}"
    by (simp add: resolved_target_fields_def test_defs)
  have h4: "distinct (map snd (rename_pairs ABConverter))" by (simp add: test_defs)
  from init_checks_target_hints [of EmptyTypeHints] h1
  have c1: "init EmptyTypeHints = Inl (ConfigError NoTypeHints)" by blast
  from init_checks_target_hints [of ABConverter] h3 h4
  have "\<exists>c. init ABConverter = Inr c" by blast
  then have c2: "init ABConverter = Inr (projr (init ABConverter))" by auto
  from h1 h2 h3 h4 c1 c2 show ?thesis by blast
qed

section \<open>A rename target without a hint\<close>

text \<open>
  C10 as it is stated does not hold, on two counts. \<open>EmptyRenameUnknown\<close> has a rename
  pair whose target has no hint and does not initialise, since the target has no hints
  at all. \<open>ADRenameUnknown\<close> has such a pair and initialises, but converting
  \<^verbatim>\<open>A(1, "1")\<close> raises \<^verbatim>\<open>ParsingError\<close> for the same-name attribute
  \<^verbatim>\<open>attr1\<close>, which is gone through first, and not \<^verbatim>\<open>KeyError\<close>.
\<close>

theorem rename_without_hint_counterexample:
  "(''attr2'', ''attr9'') \<in> set (rename_pairs EmptyRenameUnknown)
   \<and> map_of (target_hints EmptyRenameUnknown) ''attr9'' = None
   \<and> init EmptyRenameUnknown = Inl (ConfigError NoTypeHints)
   \<and> (''attr2'', ''attr9'') \<in> set (rename_pairs ADRenameUnknown)
   \<and> map_of (target_hints ADRenameUnknown) ''attr9'' = None
   \<and> init ADRenameUnknown = Inr (projr (init ADRenameUnknown))
   \<and> convert (projr (init ADRenameUnknown)) a_1_1 = Inl (ParsingError ''attr1'' ''attr1'')"
  by (simp add: model_defs test_defs)

lemma parse_attr_no_hint:
  assumes "map_of (return_hints c) t = None"
  shows "parse_attr c inst f t =
     (case inst f of None \<Rightarrow> Inl (AttributeError f) | Some v \<Rightarrow> Inl (KeyError t))"
  using assms by (simp add: parse_attr_def getattr_def split: option.splits)

text \<open>
  C10, amended. Let the configuration have hints for the target and distinct rename
  targets, and a rename pair whose target name has no hint. Then \<^verbatim>\<open>__init__\<close>
  returns a converter, \<^verbatim>\<open>convert\<close> returns for no instance, and for every instance
  that has the origin attribute of the pair and on which every pair gone through before
  it gives a value, \<^verbatim>\<open>convert\<close> raises the plain \<^verbatim>\<open>KeyError\<close> of the lookup
  of the target name.
\<close>

theorem rename_target_without_hint:
  assumes "(attr_from, attr_to) \<in> set (rename_pairs cfg)"
    and "attr_to \<notin> set (keys (target_hints cfg))"
    and "target_hints cfg \<noteq> []"
    and "distinct (map snd (rename_pairs cfg))"
  shows "\<exists>c. init cfg = Inr c
     \<and> (\<forall>inst kw. convert c inst \<noteq> Inr kw)
     \<and> (\<forall>inst pre post.
          field_pairs c = pre @ (attr_from, attr_to) # post
          \<and> (\<forall>q\<in>set pre. \<exists>v. parse_attr c inst (fst q) (snd q) = Inr v)
          \<and> inst attr_from \<noteq> None
          \<longrightarrow> convert c inst = Inl (KeyError attr_to))"
proof -
  from init_succeeds [OF assms(3,4)] obtain c where c: "init cfg = Inr c" by blast
  from assms(2) have "map_of (return_hints c) attr_to = None"
    by (simp add: init_InrD(3) [OF c] map_of_absent)
  note pa = parse_attr_no_hint [OF this]
  have "zip (origin_rename c) (return_rename c) = rename_pairs cfg"
    by (simp add: init_InrD(4,5) [OF c] zip_map_fst_snd)
  with assms(1) have mem: "(attr_from, attr_to) \<in> set (zip (origin_rename c) (return_rename c))"
    by simp
  have never: "convert c inst \<noteq> Inr kw" for inst kw
  proof
    assume "convert c inst = Inr kw"
    then obtain b where "parse_rename c (origin_rename c) (return_rename c) inst = Inr b"
      by (rule convert_InrD)
    then have "\<exists>v. parse_attr c inst attr_from attr_to = Inr v"
      unfolding parse_rename_def using mem by (rule loop_all_ok)
    then show False by (simp add: pa [of inst attr_from] split: option.splits)
  qed
  have key: "convert c inst = Inl (KeyError attr_to)"
    if "field_pairs c = pre @ (attr_from, attr_to) # post"
      and "\<forall>q\<in>set pre. \<exists>v. parse_attr c inst (fst q) (snd q) = Inr v"
      and "inst attr_from \<noteq> None" for inst pre post
  proof -
    from that(3) have "parse_attr c inst attr_from attr_to = Inl (KeyError attr_to)"
      by (auto simp: pa [of inst attr_from])
    from convert_first_error [OF that(1,2) this] show ?thesis .
  qed
  from c never key show ?thesis by blast
qed

theorem rename_target_without_hint_witness:
  "(''attr2'', ''attr9'') \<in> set (rename_pairs ABRenameUnknown)
   \<and> ''attr9'' \<notin> set (keys (target_hints ABRenameUnknown))
   \<and> target_hints ABRenameUnknown \<noteq> []
   \<and> distinct (map snd (rename_pairs ABRenameUnknown))
   \<and> init ABRenameUnknown = Inr (projr (init ABRenameUnknown))
   \<and> field_pairs (projr (init ABRenameUnknown))
       = [(''attr1'', ''attr1''), (''attr2'', ''attr2'')] @ (''attr2'', ''attr9'') # []
   \<and> parse_attr (projr (init ABRenameUnknown)) a_1_1 ''attr1'' ''attr1'' = Inr (VInt 1)
   \<and> parse_attr (projr (init ABRenameUnknown)) a_1_1 ''attr2'' ''attr2'' = Inr (VInt 1)
   \<and> a_1_1 ''attr2'' \<noteq> None
   \<and> convert (projr (init ABRenameUnknown)) a_1_1 = Inl (KeyError ''attr9'')"
proof -
  let ?c = "projr (init ABRenameUnknown)"
  have h1: "(''attr2'', ''attr9'') \<in> set (rename_pairs ABRenameUnknown)" by (simp add: test_defs)
  have h2: "''attr9'' \<notin> set (keys (target_hints ABRenameUnknown))"
    by (simp add: model_defs test_defs)
  have h3: "target_hints ABRenameUnknown \<noteq> []" by (simp add: model_defs test_defs)
  have h4: "distinct (map snd (rename_pairs ABRenameUnknown))" by (simp add: test_defs)
  have i: "init ABRenameUnknown = Inr ?c" by (simp add: model_defs test_defs)
  have fp: "field_pairs ?c = [(''attr1'', ''attr1''), (''attr2'', ''attr2'')] @ (''attr2'', ''attr9'') # []"
    by (simp add: model_defs test_defs)
  have p1: "parse_attr ?c a_1_1 ''attr1'' ''attr1'' = Inr (VInt 1)"
    by (simp add: model_defs test_defs)
  have p2: "parse_attr ?c a_1_1 ''attr2'' ''attr2'' = Inr (VInt 1)"
    by (simp add: model_defs test_defs)
  have at: "a_1_1 ''attr2'' \<noteq> None" by (simp add: a_1_1_def)
  from p1 p2 have pre: "\<forall>q\<in>set [(''attr1'', ''attr1''), (''attr2'', ''attr2'')].
      \<exists>v. parse_attr ?c a_1_1 (fst q) (snd q) = Inr v"
    by simp
  from rename_target_without_hint [OF h1 h2 h3 h4] obtain c
    where c: "init ABRenameUnknown = Inr c"
      and k: "\<forall>inst pre post.
          field_pairs c = pre @ (''attr2'', ''attr9'') # post
          \<and> (\<forall>q\<in>set pre. \<exists>v. parse_attr c inst (fst q) (snd q) = Inr v)
          \<and> inst ''attr2'' \<noteq> None
          \<longrightarrow> convert c inst = Inl (KeyError ''attr9'')"
    by blast
  from c i have "c = ?c" by simp
  with k have "field_pairs ?c = [(''attr1'', ''attr1''), (''attr2'', ''attr2'')] @ (''attr2'', ''attr9'') # []
          \<and> (\<forall>q\<in>set [(''attr1'', ''attr1''), (''attr2'', ''attr2'')].
                \<exists>v. parse_attr ?c a_1_1 (fst q) (snd q) = Inr v)
          \<and> a_1_1 ''attr2'' \<noteq> None
          \<longrightarrow> convert ?c a_1_1 = Inl (KeyError ''attr9'')"
    by blast
  with fp pre at have "convert ?c a_1_1 = Inl (KeyError ''attr9'')" by blast
  with h1 h2 h3 h4 i fp p1 p2 at show ?thesis by blast
qed


section \<open>The names handed to the target constructor\<close>

lemma routing_keys:
  assumes i: "init cfg = Inr c"
    and a: "parse_samename c (origin_contains c) inst = Inr a"
    and b: "parse_rename c (origin_rename c) (return_rename c) inst = Inr b"
    and d: "parse_need_compute c inst = Inr d"
  shows "set (keys a) = set (origin_contains c)"
    and "set (keys b) = set (return_rename c)"
    and "set (keys d) = set (keys (compute_fields_mapping c))"
proof -
  have z1: "snd ` set (zip (origin_contains c) (origin_contains c)) = set (origin_contains c)"
    using arg_cong [OF field_pairs_snd(1) [OF i], of set] by (simp only: set_map)
  have z2: "snd ` set (zip (origin_rename c) (return_rename c)) = set (return_rename c)"
    using arg_cong [OF field_pairs_snd(2) [OF i], of set] by (simp only: set_map)
  have e: "set (keys ([] :: (string, pyval) dict)) = {}" by (simp add: keys_def)
  from a have "set (keys a) = set (keys ([] :: (string, pyval) dict))
      \<union> snd ` set (zip (origin_contains c) (origin_contains c))"
    unfolding parse_samename_def parse_rename_def by (rule loop_keys)
  then show "set (keys a) = set (origin_contains c)" by (simp only: z1 e Un_empty_left)
  from b have "set (keys b) = set (keys ([] :: (string, pyval) dict))
      \<union> snd ` set (zip (origin_rename c) (return_rename c))"
    unfolding parse_rename_def by (rule loop_keys)
  then show "set (keys b) = set (return_rename c)" by (simp only: z2 e Un_empty_left)
  from d have "set (keys d) = set (keys ([] :: (string, pyval) dict))
      \<union> fst ` set (compute_fields_mapping c)"
    unfolding parse_need_compute_def by (rule compute_keys)
  then show "set (keys d) = set (keys (compute_fields_mapping c))"
    by (simp add: keys_def)
qed

text \<open>
  What \<^verbatim>\<open>_setup_attrs\<close> does guarantee: the same-name names are disjoint from the
  rename targets and from the computed names. The rename targets and the computed
  names are disjoint when the configuration keeps them so.
\<close>

lemma routing_disjoint:
  assumes i: "init cfg = Inr c"
    and a: "parse_samename c (origin_contains c) inst = Inr a"
    and b: "parse_rename c (origin_rename c) (return_rename c) inst = Inr b"
    and d: "parse_need_compute c inst = Inr d"
  shows "set (keys a) \<inter> set (keys b) = {}"
    and "set (keys a) \<inter> set (keys d) = {}"
    and "snd ` set (rename_pairs cfg) \<inter> fst ` set (return_compute_fields cfg) = {}
         \<Longrightarrow> set (keys b) \<inter> set (keys d) = {}"
proof -
  note k = routing_keys [OF i a b d]
  show "set (keys a) \<inter> set (keys b) = {}" using init_contains(2) [OF i] by (simp add: k)
  show "set (keys a) \<inter> set (keys d) = {}" using init_contains(3) [OF i] by (simp add: k)
  assume "snd ` set (rename_pairs cfg) \<inter> fst ` set (return_compute_fields cfg) = {}"
  then show "set (keys b) \<inter> set (keys d) = {}"
    by (simp add: k init_InrD(2,5) [OF i] py_dict_keys)
qed

lemma excluded_field_absent:
  assumes i: "init cfg = Inr c" and cv: "convert c inst = Inr kw"
    and x: "x \<in> set (exclude_fields cfg)"
    and nr: "x \<notin> snd ` set (rename_pairs cfg)"
    and nc: "x \<notin> fst ` set (return_compute_fields cfg)"
  shows "map_of kw x = None"
proof -
  from cv obtain a b d where a: "parse_samename c (origin_contains c) inst = Inr a"
    and b: "parse_rename c (origin_rename c) (return_rename c) inst = Inr b"
    and d: "parse_need_compute c inst = Inr d" and kw: "kw = a @ b @ d"
    by (rule convert_InrD)
  note k = routing_keys [OF i a b d]
  from x init_contains(4) [OF i] have "x \<notin> set (keys a)" by (auto simp: k)
  moreover from nr have "x \<notin> set (keys b)" by (simp add: k init_InrD(5) [OF i])
  moreover from nc have "x \<notin> set (keys d)" by (simp add: k init_InrD(2) [OF i] py_dict_keys)
  ultimately have "x \<notin> set (keys kw)" by (simp add: kw keys_def)
  then show ?thesis by (rule map_of_absent)
qed

text \<open>
  C8. The three dictionaries should give the constructor pairwise disjoint names.
  \<open>ACRenameCompute\<close> names \<^verbatim>\<open>attr3\<close> as a rename target and as a computed field:
  \<^verbatim>\<open>__init__\<close> accepts it, the rename dictionary and the compute dictionary both
  have the key \<^verbatim>\<open>attr3\<close>, and the call of the constructor raises
  \<^verbatim>\<open>TypeError\<close>.
\<close>

theorem rename_compute_overlap:
  "init ACRenameCompute = Inr (projr (init ACRenameCompute))
   \<and> map_sum id keys (parse_samename (projr (init ACRenameCompute))
        (origin_contains (projr (init ACRenameCompute))) a_1_1) = Inr [''attr1'', ''attr2'']
   \<and> map_sum id keys (parse_rename (projr (init ACRenameCompute))
        (origin_rename (projr (init ACRenameCompute)))
        (return_rename (projr (init ACRenameCompute))) a_1_1) = Inr [''attr3'']
   \<and> map_sum id keys (parse_need_compute (projr (init ACRenameCompute)) a_1_1) = Inr [''attr3'']
   \<and> convert (projr (init ACRenameCompute)) a_1_1 = Inl TypeError"
  by (simp add: model_defs test_defs)

text \<open>
  C9. No excluded field should get a value. \<open>ACRenameExcluded\<close> excludes
  \<^verbatim>\<open>attr3\<close> and renames \<^verbatim>\<open>attr1\<close> into it, \<open>ACComputeExcluded\<close> excludes
  \<^verbatim>\<open>attr3\<close> and computes it: in both the constructor is called with a value for
  \<^verbatim>\<open>attr3\<close>.
\<close>

theorem excluded_field_gets_value:
  "''attr3'' \<in> set (exclude_fields ACRenameExcluded)
   \<and> init_convert ACRenameExcluded a_1_1
       = Inr [(''attr1'', VInt 1), (''attr2'', VInt 1), (''attr3'', VInt 1)]
   \<and> ''attr3'' \<in> set (exclude_fields ACComputeExcluded)
   \<and> init_convert ACComputeExcluded a_1_1
       = Inr [(''attr1'', VInt 1), (''attr2'', VInt 1), (''attr3'', VInt 1)]"
  by (simp add: model_defs test_defs)

end
